theory Spec2Isabelle
  imports Complex_Main
begin

section \<open>Time series of the Hector model: \<open>headers/data/tseries.hpp\<close>\<close>

text \<open>
  The class template \<open>tseries<T_data>\<close> keeps its samples in a \<open>std::map<double, T_data>\<close>
  and answers a \<open>get\<close> at a time without a sample through \<open>interp_helper<T_data>::interp\<close>,
  which hands all samples to an \<open>h_interpolator\<close>.

  Times are the finite values of \<open>double\<close>, read as real numbers: the comparisons of the
  source are the only operations on them, and they agree with the order of the reals
  (a NaN key is outside the contract of \<open>std::map\<close>). Exceptions are values: every
  \<open>H_ASSERT\<close> and \<open>H_THROW\<close> of the source is a branch returning \<open>Inl\<close>. The global logger
  written by a refused \<open>get\<close> is a sink outside the class and is not part of the state.
\<close>

subsection \<open>Constants and exceptions\<close>

text \<open>
  \<open>std::numeric_limits<double>::min()\<close> is the smallest positive normalised double,
  \<open>2^-1022\<close>; \<open>max()\<close> is the largest finite double, \<open>(2^53 - 1) * 2^971\<close>.
\<close>

definition DBL_MIN :: real where
  "DBL_MIN = 1 / 2 ^ 1022"

definition DBL_MAX :: real where
  "DBL_MAX = (2 ^ 53 - 1) * 2 ^ 971"

text \<open>
  The class throws one exception type, \<open>h_exception\<close>, told apart by its message:
  \<^item> \<open>EmptySeries\<close>: "no mapdata" (\<open>first\<close>, \<open>last\<close>);
  \<^item> \<open>InsufficientSamples\<close>: "time series data must have size>1" (\<open>interp\<close>);
  \<^item> \<open>ExtrapolationNotPermitted\<close>: "end interpolation not allowed" (\<open>interp\<close>);
  \<^item> \<open>InterpolationNotPermitted\<close>: "Interpolation requested but not allowed" (\<open>get\<close>).
\<close>

datatype h_exception =
    EmptySeries
  | InsufficientSamples
  | InterpolationNotPermitted
  | ExtrapolationNotPermitted

subsection \<open>The interpolator\<close>

text \<open>
  Modelled from the spec: \<open>h_interpolator\<close> (\<open>data/h_interpolator.hpp\<close> is not among the
  sources). The engine holds a method selector and its own copy of the samples of the last
  \<open>newdata\<close>; \<open>f\<close> evaluates the fitted model at a point and checks no range. The
  numerical fit itself is a parameter \<open>F\<close> of the model: \<open>F m ps x\<close> is the value at \<open>x\<close>
  of the model that method \<open>m\<close> fits to the samples \<open>ps\<close>.
\<close>

datatype interpolation_methods = DEFAULT | LINEAR | SPLINE

record h_interpolator =
  meth :: interpolation_methods
  fitted :: "(real \<times> real) list"

type_synonym fit = "interpolation_methods \<Rightarrow> (real \<times> real) list \<Rightarrow> real \<Rightarrow> real"

definition h_interpolator_new :: h_interpolator where
  "h_interpolator_new = \<lparr>meth = DEFAULT, fitted = []\<rparr>"

definition set_method :: "interpolation_methods \<Rightarrow> h_interpolator \<Rightarrow> h_interpolator" where
  "set_method m itp = itp\<lparr>meth := m\<rparr>"

text \<open>\<open>newdata(n, x, y)\<close> copies the first \<open>n\<close> entries of the two arrays.\<close>

definition newdata :: "nat \<Rightarrow> real list \<Rightarrow> real list \<Rightarrow> h_interpolator \<Rightarrow> h_interpolator" where
  "newdata n x y itp = itp\<lparr>fitted := zip (take n x) (take n y)\<rparr>"

definition interp_f :: "fit \<Rightarrow> h_interpolator \<Rightarrow> real \<Rightarrow> real" where
  "interp_f F itp x = F (meth itp) (fitted itp) x"

text \<open>
  A stand-in for the absent numerical routine, used where a closed statement needs a
  concrete engine: the line through the two samples around \<open>x\<close> (through the two nearest
  ones when \<open>x\<close> is outside the samples).
\<close>

fun linear_f :: "(real \<times> real) list \<Rightarrow> real \<Rightarrow> real" where
  "linear_f ((x0, y0) # (x1, y1) # ps) x =
     (if x \<le> x1 \<or> ps = [] then y0 + (y1 - y0) * (x - x0) / (x1 - x0)
      else linear_f ((x1, y1) # ps) x)"
| "linear_f ps x = 0"

definition linear_fit :: fit where
  "linear_fit m ps x = linear_f ps x"

subsection \<open>Quantities with a unit\<close>

text \<open>
  Modelled from the spec: \<open>unitval\<close> (\<open>data/unitval.hpp\<close> is not among the sources), a
  magnitude with a unit tag. The type of unit tags is a parameter. \<open>unitval(v, u)\<close>
  builds a quantity, \<open>units()\<close> reads the tag, and \<open>value(u)\<close> reads the magnitude
  expressed in the unit \<open>u\<close>; the source asks for it in the quantity's own unit only,
  where it is the stored magnitude.
\<close>

record 'u unitval =
  val :: real
  valUnits :: "'u"

definition unitval :: "real \<Rightarrow> 'u \<Rightarrow> 'u unitval" where
  "unitval v u = \<lparr>val = v, valUnits = u\<rparr>"

definition units :: "'u unitval \<Rightarrow> 'u" where
  "units q = valUnits q"

definition value_uv :: "'u unitval \<Rightarrow> 'u \<Rightarrow> real" where
  "value_uv q u = val q"

subsection \<open>The sample map\<close>

text \<open>
  \<open>std::map<double, T_data>\<close> is the list of its entries in ascending order of the keys,
  which is the order its iterators visit. \<open>map_assign t d\<close> is \<open>mapdata[t] = d\<close>
  (insert a new key at its place, overwrite an old one); \<open>map_find\<close> is \<open>find\<close>, with
  \<open>None\<close> for \<open>end()\<close>.
\<close>

primrec map_assign :: "real \<Rightarrow> 'a \<Rightarrow> (real \<times> 'a) list \<Rightarrow> (real \<times> 'a) list" where
  "map_assign t d [] = [(t, d)]"
| "map_assign t d (e # es) =
     (if fst e < t then e # map_assign t d es
      else if fst e = t then (t, d) # es
      else (t, d) # e # es)"

primrec map_find :: "real \<Rightarrow> (real \<times> 'a) list \<Rightarrow> 'a option" where
  "map_find t [] = None"
| "map_find t (e # es) = (if fst e = t then Some (snd e) else map_find t es)"

subsection \<open>The series\<close>

record 'a tseries =
  mapdata :: "(real \<times> 'a) list"
  lastInterpYear :: real
  endinterp_allowed :: bool
  dirty :: bool
  interpolator :: h_interpolator
  name :: string

text \<open>The invariant of \<open>std::map\<close>: keys strictly ascending (so unique).\<close>

definition sorted_keys :: "'a tseries \<Rightarrow> bool" where
  "sorted_keys S = sorted_wrt (<) (map fst (mapdata S))"

text \<open>
  \<open>interp_helper<T_data>::interp\<close>, the primary template at \<open>T_data = double\<close>. The
  interpolator and the dirty flag are passed by reference: the function returns them
  with its result, also when it throws after the refit. The loop fills \<open>x\<close> with the keys
  and \<open>y\<close> with the values, in map order.
\<close>

type_synonym 'a helper =
  "(real \<times> 'a) list \<Rightarrow> h_interpolator \<Rightarrow> string \<Rightarrow> bool \<Rightarrow> bool \<Rightarrow> real
     \<Rightarrow> (h_exception + 'a) \<times> h_interpolator \<times> bool"

definition interp_helper_interp :: "fit \<Rightarrow> real helper" where
  "interp_helper_interp F userData itp nm isDirty eia index =
     (if \<not> length userData > 1 then (Inl InsufficientSamples, itp, isDirty)
      else
        let x = map fst userData;
            y = map snd userData;
            itp' = (if isDirty then newdata (length userData) x y itp else itp);
            isDirty' = (if isDirty then False else isDirty)
        in if (index < fst (hd userData) \<or> index > fst (last userData)) \<and> \<not> eia
           then (Inl ExtrapolationNotPermitted, itp', isDirty')
           else (Inr (interp_f F itp' index), itp', isDirty'))"

text \<open>\<open>interp_helper<unitval>::interp\<close>, the specialisation for quantities.\<close>

definition interp_helper_unitval_interp :: "fit \<Rightarrow> 'u unitval helper" where
  "interp_helper_unitval_interp F userData itp nm isDirty eia index =
     (if \<not> length userData > 1 then (Inl InsufficientSamples, itp, isDirty)
      else
        let x = map fst userData;
            y = map (\<lambda>e. value_uv (snd e) (units (snd e))) userData;
            itp' = (if isDirty then newdata (length userData) x y itp else itp);
            isDirty' = (if isDirty then False else isDirty)
        in if (index < fst (hd userData) \<or> index > fst (last userData)) \<and> \<not> eia
           then (Inl ExtrapolationNotPermitted, itp', isDirty')
           else (Inr (unitval (interp_f F itp' index) (units (snd (hd userData)))),
                 itp', isDirty'))"

text \<open>\<open>tseries::set_interp\<close>\<close>

definition set_interp ::
  "real \<Rightarrow> bool \<Rightarrow> interpolation_methods \<Rightarrow> 'a tseries \<Rightarrow> 'a tseries" where
  "set_interp ia eia m S =
     S\<lparr>lastInterpYear := ia, endinterp_allowed := eia,
       interpolator := set_method m (interpolator S), dirty := True\<rparr>"

text \<open>
  The constructor. The members it starts from are a default-constructed map, interpolator
  and string; the three scalar members are assigned by \<open>set_interp\<close> and the line after it
  before anything reads them.
\<close>

definition tseries_new :: "'a tseries" where
  "tseries_new =
     (set_interp DBL_MIN False DEFAULT
        \<lparr>mapdata = [], lastInterpYear = 0, endinterp_allowed = False, dirty = False,
         interpolator = h_interpolator_new, name = []\<rparr>)
     \<lparr>dirty := False, name := ''?''\<rparr>"

text \<open>\<open>tseries::set\<close>\<close>

definition set_ts :: "real \<Rightarrow> 'a \<Rightarrow> 'a tseries \<Rightarrow> 'a tseries" where
  "set_ts t d S =
     (let S' = S\<lparr>mapdata := map_assign t d (mapdata S)\<rparr>
      in if t < lastInterpYear S' then S'\<lparr>dirty := True\<rparr> else S')"

text \<open>\<open>tseries::exists\<close>\<close>

definition exists_ts :: "'a tseries \<Rightarrow> real \<Rightarrow> bool" where
  "exists_ts S t = (map_find t (mapdata S) \<noteq> None)"

text \<open>
  \<open>tseries::get\<close>. The function is \<open>const\<close>, but \<open>dirty\<close> is \<open>mutable\<close> and the interpolator
  is reached through a \<open>const_cast\<close>, so it returns the series with its result. The
  helper is the instance of \<open>interp_helper\<close> that the element type selects.
\<close>

definition get :: "'a helper \<Rightarrow> 'a tseries \<Rightarrow> real \<Rightarrow> (h_exception + 'a) \<times> 'a tseries" where
  "get helper S t =
     (case map_find t (mapdata S) of
        Some d \<Rightarrow> (Inr d, S)
      | None \<Rightarrow>
          if t < lastInterpYear S then
            (case helper (mapdata S) (interpolator S) (name S) (dirty S)
                         (endinterp_allowed S) t of
               (r, itp, isDirty) \<Rightarrow> (r, S\<lparr>interpolator := itp, dirty := isDirty\<rparr>))
          else (Inl InterpolationNotPermitted, S))"

abbreviation get_double :: "fit \<Rightarrow> real tseries \<Rightarrow> real \<Rightarrow> (h_exception + real) \<times> real tseries" where
  "get_double F \<equiv> get (interp_helper_interp F)"

abbreviation get_unitval ::
  "fit \<Rightarrow> 'u unitval tseries \<Rightarrow> real \<Rightarrow> (h_exception + 'u unitval) \<times> 'u unitval tseries" where
  "get_unitval F \<equiv> get (interp_helper_unitval_interp F)"

text \<open>\<open>tseries::first\<close>, \<open>tseries::last\<close>, \<open>tseries::size\<close>\<close>

definition first_ts :: "'a tseries \<Rightarrow> h_exception + real" where
  "first_ts S = (if mapdata S = [] then Inl EmptySeries else Inr (fst (hd (mapdata S))))"

definition last_ts :: "'a tseries \<Rightarrow> h_exception + real" where
  "last_ts S = (if mapdata S = [] then Inl EmptySeries else Inr (fst (last (mapdata S))))"

definition size_ts :: "'a tseries \<Rightarrow> int" where
  "size_ts S = int (length (mapdata S))"

text \<open>\<open>tseries::allowInterp\<close>\<close>

definition allowInterp :: "bool \<Rightarrow> 'a tseries \<Rightarrow> 'a tseries" where
  "allowInterp eia S = set_interp DBL_MAX eia DEFAULT S"

text \<open>
  \<open>tseries::allowPartialInterp\<close>: the argument \<open>last()\<close> is evaluated first, and its
  exception leaves the series as it was.
\<close>

definition allowPartialInterp :: "bool \<Rightarrow> 'a tseries \<Rightarrow> (h_exception + unit) \<times> 'a tseries" where
  "allowPartialInterp eia S =
     (case last_ts S of
        Inl e \<Rightarrow> (Inl e, S)
      | Inr l \<Rightarrow> (Inr (), set_interp l eia DEFAULT S))"

subsection \<open>Histories of calls\<close>

text \<open>
  The members of the class are private apart from \<open>name\<close>, so every series is the result
  of a sequence of calls on a constructed one. A failed call leaves the state its body
  had reached.
\<close>

datatype 'a call =
    Set real 'a
  | Get real
  | AllowInterp bool
  | AllowPartialInterp bool
  | Rename string

primrec step :: "'a helper \<Rightarrow> 'a tseries \<Rightarrow> 'a call \<Rightarrow> 'a tseries" where
  "step h S (Set t d) = set_ts t d S"
| "step h S (Get t) = snd (get h S t)"
| "step h S (AllowInterp eia) = allowInterp eia S"
| "step h S (AllowPartialInterp eia) = snd (allowPartialInterp eia S)"
| "step h S (Rename n) = S\<lparr>name := n\<rparr>"

definition run :: "'a helper \<Rightarrow> 'a call list \<Rightarrow> 'a tseries" where
  "run h cs = foldl (step h) tseries_new cs"

text \<open>The value of the last \<open>set\<close> at time \<open>t\<close> in a history, if there is one.\<close>

primrec last_set :: "real \<Rightarrow> 'a call list \<Rightarrow> 'a option" where
  "last_set t [] = None"
| "last_set t (c # cs) =
     (case last_set t cs of
        Some d \<Rightarrow> Some d
      | None \<Rightarrow> (case c of Set t' d \<Rightarrow> if t' = t then Some d else None | _ \<Rightarrow> None))"

subsection \<open>The range of the samples, runs of \<open>set\<close>, and example series\<close>

text \<open>
  \<open>in_range S t\<close>: the series has samples and \<open>t\<close> lies in the closed interval from
  \<open>first()\<close> to \<open>last()\<close>.
\<close>

definition in_range :: "'a tseries \<Rightarrow> real \<Rightarrow> bool" where
  "in_range S t =
     (case (first_ts S, last_ts S) of
        (Inr a, Inr b) \<Rightarrow> a \<le> t \<and> t \<le> b
      | _ \<Rightarrow> False)"

text \<open>A sequence of \<open>set\<close> calls, in order.\<close>

primrec set_all :: "(real \<times> 'a) list \<Rightarrow> 'a tseries \<Rightarrow> 'a tseries" where
  "set_all [] S = S"
| "set_all (p # ps) S = set_all ps (set_ts (fst p) (snd p) S)"

text \<open>
  The series of the spec's scenario A: three samples, then \<open>allowPartialInterp(false)\<close>,
  which puts the cutoff at 2010. \<open>scenario_A_fitted\<close> is the same series after a
  successful \<open>get(1995)\<close>.
\<close>

definition three_samples :: "real tseries" where
  "three_samples = set_ts 2010 15 (set_ts 2000 20 (set_ts 1990 10 tseries_new))"

definition scenario_A :: "real tseries" where
  "scenario_A = snd (allowPartialInterp False three_samples)"

definition scenario_A_fitted :: "real tseries" where
  "scenario_A_fitted = snd (get_double linear_fit scenario_A 1995)"

text \<open>A series with one sample, at 2000, and the cutoff there.\<close>

definition one_sample :: "real tseries" where
  "one_sample = snd (allowPartialInterp True (set_ts 2000 1 tseries_new))"

text \<open>A series of quantities, with unit tags written as strings.\<close>

definition scenario_Q :: "string unitval tseries" where
  "scenario_Q =
     allowInterp True
       (set_ts 2000 (unitval 20 ''ppmv'') (set_ts 1990 (unitval 10 ''ppmv'') tseries_new))"

text \<open>
  A series of quantities with two samples and the cutoff at the first of them, before
  and after a successful \<open>get(1990)\<close>: \<open>scenario_P_dirty\<close> is dirty, \<open>scenario_P\<close> is not.
\<close>

definition scenario_P_dirty :: "string unitval tseries" where
  "scenario_P_dirty =
     set_ts 2010 (unitval 2 ''ppmv'')
       (snd (allowPartialInterp True (set_ts 2000 (unitval 1 ''ppmv'') tseries_new)))"

definition scenario_P :: "string unitval tseries" where
  "scenario_P = snd (get_unitval linear_fit scenario_P_dirty 1990)"

section \<open>Properties\<close>

text \<open>The defining equations that evaluate a call on a concrete series.\<close>

lemmas eval_defs =
  tseries_new_def set_interp_def set_ts_def allowInterp_def allowPartialInterp_def
  first_ts_def last_ts_def exists_ts_def get_def interp_helper_interp_def
  interp_helper_unitval_interp_def set_method_def h_interpolator_new_def newdata_def
  interp_f_def linear_fit_def unitval_def units_def value_uv_def DBL_MIN_def DBL_MAX_def
  run_def sorted_keys_def Let_def

lemmas scen_defs =
  three_samples_def scenario_A_def scenario_A_fitted_def one_sample_def scenario_Q_def
  scenario_P_dirty_def scenario_P_def in_range_def

subsection \<open>The sample map\<close>

lemma map_find_assign:
  "map_find t' (map_assign t d m) = (if t' = t then Some d else map_find t' m)"
  by (induction m) auto

lemma keys_map_assign: "set (map fst (map_assign t d m)) = insert t (set (map fst m))"
  by (induction m) auto

lemma sorted_map_assign:
  "sorted_wrt (<) (map fst m) \<Longrightarrow> sorted_wrt (<) (map fst (map_assign t d m))"
proof (induction m)
  case Nil
  then show ?case by simp
next
  case (Cons e es)
  have "\<forall>k \<in> set (map fst (map_assign t d es)). fst e < k" if "fst e < t"
    using that Cons.prems by (auto simp: keys_map_assign simp del: set_map)
  with Cons show ?case by (auto simp del: set_map)
qed

lemma map_assign_not_Nil: "map_assign t d m \<noteq> []"
  by (cases m) auto

lemma length_map_assign: "length m \<le> length (map_assign t d m)"
  by (induction m) auto

lemma length_map_assign_gt: "1 < length m \<Longrightarrow> 1 < length (map_assign t d m)"
  using length_map_assign [of m t d] by simp

lemma hd_map_assign:
  "m \<noteq> [] \<Longrightarrow> fst (hd m) < t \<Longrightarrow> hd (map_assign t d m) = hd m"
  by (cases m) auto

lemma hd_map_assign_lower:
  "m \<noteq> [] \<Longrightarrow> t' < fst (hd m) \<Longrightarrow> t' < t \<Longrightarrow> t' < fst (hd (map_assign t d m))"
  by (cases m) auto

lemma last_map_assign:
  "m \<noteq> [] \<Longrightarrow> fst (last m) \<le> fst (last (map_assign t d m))"
  by (induction m) (auto simp: map_assign_not_Nil)

lemma mem_map_assign: "(t, d) \<in> set (map_assign t d m)"
  by (induction m) auto

lemma hd_unit_map_assign:
  "m \<noteq> [] \<Longrightarrow> fst (hd m) < t \<or> valUnits q = valUnits (snd (hd m)) \<Longrightarrow>
   valUnits (snd (hd (map_assign t q m))) = valUnits (snd (hd m))"
  by (cases m) auto

lemma range_map_assign:
  assumes ne: "m \<noteq> []" and lt: "t' < t" and le: "t' \<le> fst (last m)"
  shows "(t' < fst (hd (map_assign t d m)) \<or> fst (last (map_assign t d m)) < t')
           \<longleftrightarrow> (t' < fst (hd m) \<or> fst (last m) < t')"
proof -
  from le last_map_assign [OF ne, of t d]
  have le': "t' \<le> fst (last (map_assign t d m))" by simp
  have "t' < fst (hd (map_assign t d m)) \<longleftrightarrow> t' < fst (hd m)"
  proof (cases "t' < fst (hd m)")
    case True
    then show ?thesis using hd_map_assign_lower [OF ne True lt] by simp
  next
    case False
    then have "fst (hd m) < t" using lt by simp
    then show ?thesis using hd_map_assign [OF ne] by simp
  qed
  then show ?thesis using le le' by auto
qed

lemma hd_least:
  "sorted_wrt (<) (map fst (m :: (real \<times> 'a) list)) \<Longrightarrow> e \<in> set m
     \<Longrightarrow> fst (hd m) \<le> fst e"
  by (cases m) auto

subsection \<open>What a call leaves alone\<close>

lemma mapdata_get: "mapdata (snd (get h S t)) = mapdata S"
  by (auto simp: get_def split: option.splits prod.splits)

lemma policy_get:
  "lastInterpYear (snd (get h S t)) = lastInterpYear S"
  "endinterp_allowed (snd (get h S t)) = endinterp_allowed S"
  by (auto simp: get_def split: option.splits prod.splits)

lemma lastInterpYear_set_ts: "lastInterpYear (set_ts t v S) = lastInterpYear S"
  by (simp add: set_ts_def Let_def)

lemma lastInterpYear_set_all: "lastInterpYear (set_all ps S) = lastInterpYear S"
  by (induction ps arbitrary: S) (simp_all add: lastInterpYear_set_ts)

lemma mapdata_set_ts: "mapdata (set_ts t v S) = map_assign t v (mapdata S)"
  by (simp add: set_ts_def Let_def)

lemma set_ts_late:
  "lastInterpYear S \<le> t \<Longrightarrow> set_ts t v S = S\<lparr>mapdata := map_assign t v (mapdata S)\<rparr>"
  by (simp add: set_ts_def Let_def)

lemma map_find_step:
  "map_find t (mapdata (step h S c)) =
     (case c of Set t' d \<Rightarrow> if t' = t then Some d else map_find t (mapdata S)
              | _ \<Rightarrow> map_find t (mapdata S))"
  by (cases c)
     (auto simp: set_ts_def Let_def map_find_assign mapdata_get allowInterp_def set_interp_def
        allowPartialInterp_def split: sum.splits)

lemma map_find_foldl:
  "map_find t (mapdata (foldl (step h) S cs)) =
     (case last_set t cs of Some d \<Rightarrow> Some d | None \<Rightarrow> map_find t (mapdata S))"
proof (induction cs arbitrary: S)
  case Nil
  show ?case by simp
next
  case (Cons c cs)
  show ?case
    by (simp add: Cons.IH map_find_step del: step.simps split: option.splits call.splits)
qed

lemma map_find_run: "map_find t (mapdata (run h cs)) = last_set t cs"
  by (simp add: run_def map_find_foldl tseries_new_def set_interp_def split: option.splits)

text \<open>Every series that calls can build keeps the order of its keys.\<close>

lemma sorted_keys_step: "sorted_keys S \<Longrightarrow> sorted_keys (step h S c)"
  by (cases c)
     (auto simp: sorted_keys_def set_ts_def Let_def sorted_map_assign mapdata_get
        allowInterp_def set_interp_def allowPartialInterp_def split: sum.splits)

lemma sorted_keys_foldl: "sorted_keys S \<Longrightarrow> sorted_keys (foldl (step h) S cs)"
  by (induction cs arbitrary: S) (simp_all add: sorted_keys_step del: step.simps)

lemma sorted_keys_run: "sorted_keys (run h cs)"
  unfolding run_def
  by (rule sorted_keys_foldl) (simp add: sorted_keys_def tseries_new_def set_interp_def)

subsection \<open>The three paths of \<open>get\<close>\<close>

lemma get_hit: "map_find t (mapdata S) = Some d \<Longrightarrow> get h S t = (Inr d, S)"
  by (simp add: get_def)

lemma get_refused:
  "map_find t (mapdata S) = None \<Longrightarrow> lastInterpYear S \<le> t \<Longrightarrow>
   get h S t = (Inl InterpolationNotPermitted, S)"
  by (simp add: get_def)

lemma get_double_miss:
  "map_find t (mapdata S) = None \<Longrightarrow> t < lastInterpYear S \<Longrightarrow>
   get_double F S t =
     (if length (mapdata S) \<le> 1 then (Inl InsufficientSamples, S)
      else if (t < fst (hd (mapdata S)) \<or> fst (last (mapdata S)) < t)
              \<and> \<not> endinterp_allowed S
      then (Inl ExtrapolationNotPermitted,
            if dirty S
            then S\<lparr>interpolator := (interpolator S)\<lparr>fitted := mapdata S\<rparr>, dirty := False\<rparr>
            else S)
      else if dirty S
      then (Inr (F (meth (interpolator S)) (mapdata S) t),
            S\<lparr>interpolator := (interpolator S)\<lparr>fitted := mapdata S\<rparr>, dirty := False\<rparr>)
      else (Inr (F (meth (interpolator S)) (fitted (interpolator S)) t), S))"
  by (simp add: get_def interp_helper_interp_def Let_def newdata_def interp_f_def
      zip_map_fst_snd)

lemma zip_keys_magnitudes:
  "zip (take (length m) (map fst m)) (take (length m) (map (\<lambda>e. val (snd e)) m))
     = map (\<lambda>e. (fst e, val (snd e))) m"
  by (induction m) auto

lemma get_unitval_miss:
  "map_find t (mapdata Q) = None \<Longrightarrow> t < lastInterpYear Q \<Longrightarrow>
   get_unitval F Q t =
     (if length (mapdata Q) \<le> 1 then (Inl InsufficientSamples, Q)
      else if (t < fst (hd (mapdata Q)) \<or> fst (last (mapdata Q)) < t)
              \<and> \<not> endinterp_allowed Q
      then (Inl ExtrapolationNotPermitted,
            if dirty Q
            then Q\<lparr>interpolator :=
                     (interpolator Q)\<lparr>fitted := map (\<lambda>e. (fst e, val (snd e))) (mapdata Q)\<rparr>,
                   dirty := False\<rparr>
            else Q)
      else if dirty Q
      then (Inr \<lparr>val = F (meth (interpolator Q))
                          (map (\<lambda>e. (fst e, val (snd e))) (mapdata Q)) t,
                 valUnits = valUnits (snd (hd (mapdata Q)))\<rparr>,
            Q\<lparr>interpolator :=
                 (interpolator Q)\<lparr>fitted := map (\<lambda>e. (fst e, val (snd e))) (mapdata Q)\<rparr>,
               dirty := False\<rparr>)
      else (Inr \<lparr>val = F (meth (interpolator Q)) (fitted (interpolator Q)) t,
                 valUnits = valUnits (snd (hd (mapdata Q)))\<rparr>, Q))"
  by (simp add: get_def interp_helper_unitval_interp_def Let_def newdata_def interp_f_def
      unitval_def units_def value_uv_def zip_keys_magnitudes [simplified])

lemma interp_never_refused:
  "fst (interp_helper_interp F m itp nm d e t) \<noteq> Inl InterpolationNotPermitted"
  by (simp add: interp_helper_interp_def Let_def)

subsection \<open>Exact lookup\<close>

text \<open>
  Claim C1. Take any series, that is, the result of any history of calls on a constructed
  series, whatever the element type and its helper. If \<open>exists(t)\<close> holds, then the
  history has a \<open>set\<close> at \<open>t\<close>, and \<open>get(t)\<close> returns the value of the last of them.
  The series after the call is the series before it: the interpolator is not touched
  and the dirty flag keeps its value. Policy changes and the dirty flag are part of the
  history, so the result does not depend on them.
\<close>

theorem C1_get_exact_returns_last_set:
  "exists_ts (run h cs) t \<Longrightarrow>
     (\<exists>d. last_set t cs = Some d \<and> get h (run h cs) t = (Inr d, run h cs))"
  by (auto simp: exists_ts_def map_find_run get_hit)

theorem C1_witness:
  "exists_ts (run (interp_helper_interp linear_fit)
       [Set 1990 10, Set 2000 20, AllowPartialInterp False, Get 1995, Set 1990 12]) 1990
   \<and> get_double linear_fit (run (interp_helper_interp linear_fit)
       [Set 1990 10, Set 2000 20, AllowPartialInterp False, Get 1995, Set 1990 12]) 1990
     = (Inr 12, run (interp_helper_interp linear_fit)
       [Set 1990 10, Set 2000 20, AllowPartialInterp False, Get 1995, Set 1990 12])"
proof -
  have e: "exists_ts (run (interp_helper_interp linear_fit)
       [Set 1990 10, Set 2000 20, AllowPartialInterp False, Get 1995, Set 1990 (12::real)]) 1990"
    by (simp add: eval_defs)
  from C1_get_exact_returns_last_set [OF e] e show ?thesis by simp
qed

subsection \<open>A \<open>set\<close> at or after the cutoff\<close>

text \<open>
  Claim C2, as stated, fails. The series \<open>one_sample\<close> has one sample, at 2000, and its
  cutoff there. \<open>get(1990)\<close> fails for want of samples. After \<open>set(2010, 2)\<close>, a time
  not before the cutoff, the same \<open>get(1990)\<close> succeeds, and the sample at 2010 is among
  those the interpolator was fitted to.
\<close>

theorem C2_counterexample:
  "lastInterpYear one_sample \<le> 2010 \<and>
   fst (get_double linear_fit one_sample 1990) = Inl InsufficientSamples \<and>
   fst (get_double linear_fit (set_ts 2010 2 one_sample) 1990) = Inr 0 \<and>
   fitted (interpolator (snd (get_double linear_fit (set_ts 2010 2 one_sample) 1990)))
     = [(2000, 1), (2010, 2)]"
  by (simp add: scen_defs eval_defs)

text \<open>
  A \<open>set\<close> at or after the cutoff leaves a \<open>get\<close> at another time as it was, in a series
  of plain numbers, under the conditions of the amended claim below.
\<close>

lemma set_late_frame_double:
  assumes late: "lastInterpYear S \<le> t" and other: "t' \<noteq> t"
    and safe: "exists_ts S t' \<or> lastInterpYear S \<le> t' \<or> mapdata S = [] \<or>
           (\<not> dirty S \<and> 1 < length (mapdata S) \<and>
            (endinterp_allowed S \<or> last_ts S = Inr b \<and> t' \<le> b))"
  shows "get_double F (set_ts t v S) t' =
           (fst (get_double F S t'), set_ts t v (snd (get_double F S t')))"
proof -
  let ?S' = "S\<lparr>mapdata := map_assign t v (mapdata S)\<rparr>"
  have s: "set_ts t v S = ?S'" using late by (rule set_ts_late)
  have f: "map_find t' (mapdata ?S') = map_find t' (mapdata S)"
    using other by (simp add: map_find_assign)
  have "get_double F ?S' t' = (fst (get_double F S t'), set_ts t v (snd (get_double F S t')))"
  proof (cases "map_find t' (mapdata S)")
    case (Some d)
    then show ?thesis using f s by (simp add: get_hit)
  next
    case None
    note miss = this
    show ?thesis
    proof (cases "lastInterpYear S \<le> t'")
      case True
      then show ?thesis using miss f s by (simp add: get_refused)
    next
      case False
      then have lt: "t' < lastInterpYear S" "t' < t" using late by auto
      from safe miss False
      consider (empty) "mapdata S = []"
        | (fit) "\<not> dirty S" "1 < length (mapdata S)"
                "endinterp_allowed S \<or> t' \<le> fst (last (mapdata S))"
        by (auto simp: exists_ts_def last_ts_def split: if_splits)
      then show ?thesis
      proof cases
        case empty
        then show ?thesis using miss f lt s
          by (simp add: get_double_miss)
      next
        case fit
        then have ne: "mapdata S \<noteq> []" by auto
        have len: "1 < length (map_assign t v (mapdata S))"
          using fit(2) by (rule length_map_assign_gt)
        have rng: "endinterp_allowed S \<or>
            ((t' < fst (hd (map_assign t v (mapdata S)))
                \<or> fst (last (map_assign t v (mapdata S))) < t')
              \<longleftrightarrow> (t' < fst (hd (mapdata S)) \<or> fst (last (mapdata S)) < t'))"
          using fit(3) range_map_assign [OF ne lt(2), of v] by blast
        have m': "map_find t' (mapdata ?S') = None" using f miss by simp
        have l': "t' < lastInterpYear ?S'" using lt by simp
        show ?thesis
          unfolding get_double_miss [OF m' l'] get_double_miss [OF miss lt(1)]
          using fit len rng s by auto
      qed
    qed
  qed
  with s show ?thesis by simp
qed

text \<open>
  In a series of quantities the unit of the result is read from the first sample at
  every call, so the \<open>set\<close> must also leave the unit of the first sample as it was: it
  is after \<open>first()\<close>, or its value has the unit of the first sample.
\<close>

lemma set_late_frame_unitval:
  assumes late: "lastInterpYear Q \<le> t" and other: "t' \<noteq> t"
    and safe: "exists_ts Q t' \<or> lastInterpYear Q \<le> t' \<or> mapdata Q = [] \<or>
           (\<not> dirty Q \<and> 1 < length (mapdata Q) \<and>
            (endinterp_allowed Q \<or> last_ts Q = Inr b \<and> t' \<le> b) \<and>
            (first_ts Q = Inr a \<and> a < t \<or> units q = units (snd (hd (mapdata Q)))))"
  shows "get_unitval F (set_ts t q Q) t' =
           (fst (get_unitval F Q t'), set_ts t q (snd (get_unitval F Q t')))"
proof -
  let ?Q' = "Q\<lparr>mapdata := map_assign t q (mapdata Q)\<rparr>"
  have s: "set_ts t q Q = ?Q'" using late by (rule set_ts_late)
  have f: "map_find t' (mapdata ?Q') = map_find t' (mapdata Q)"
    using other by (simp add: map_find_assign)
  have "get_unitval F ?Q' t' = (fst (get_unitval F Q t'), set_ts t q (snd (get_unitval F Q t')))"
  proof (cases "map_find t' (mapdata Q)")
    case (Some d)
    then show ?thesis using f s by (simp add: get_hit)
  next
    case None
    note miss = this
    show ?thesis
    proof (cases "lastInterpYear Q \<le> t'")
      case True
      then show ?thesis using miss f s by (simp add: get_refused)
    next
      case False
      then have lt: "t' < lastInterpYear Q" "t' < t" using late by auto
      from safe miss False
      consider (empty) "mapdata Q = []"
        | (fit) "\<not> dirty Q" "1 < length (mapdata Q)"
                "endinterp_allowed Q \<or> t' \<le> fst (last (mapdata Q))"
                "fst (hd (mapdata Q)) < t \<or> valUnits q = valUnits (snd (hd (mapdata Q)))"
        by (auto simp: exists_ts_def last_ts_def first_ts_def units_def split: if_splits)
      then show ?thesis
      proof cases
        case empty
        then show ?thesis using miss f lt s
          by (simp add: get_unitval_miss)
      next
        case fit
        then have ne: "mapdata Q \<noteq> []" by auto
        have len: "1 < length (map_assign t q (mapdata Q))"
          using fit(2) by (rule length_map_assign_gt)
        have rng: "endinterp_allowed Q \<or>
            ((t' < fst (hd (map_assign t q (mapdata Q)))
                \<or> fst (last (map_assign t q (mapdata Q))) < t')
              \<longleftrightarrow> (t' < fst (hd (mapdata Q)) \<or> fst (last (mapdata Q)) < t'))"
          using fit(3) range_map_assign [OF ne lt(2), of q] by blast
        have u: "valUnits (snd (hd (map_assign t q (mapdata Q)))) = valUnits (snd (hd (mapdata Q)))"
          using ne fit(4) by (rule hd_unit_map_assign)
        have m': "map_find t' (mapdata ?Q') = None" using f miss by simp
        have l': "t' < lastInterpYear ?Q'" using lt by simp
        show ?thesis
          unfolding get_unitval_miss [OF m' l'] get_unitval_miss [OF miss lt(1)]
          using fit(1,2) len rng u s by auto
      qed
    qed
  qed
  with s show ?thesis by simp
qed

text \<open>
  Without that condition the unit of the result can change: on the clean series
  \<open>scenario_P\<close>, overwriting the first sample, which sits at the cutoff, with a quantity in
  another unit leaves the stale magnitude and changes its unit.
\<close>

lemma unit_follows_first_sample:
  "lastInterpYear scenario_P \<le> 2000 \<and> \<not> dirty scenario_P \<and>
   length (mapdata scenario_P) = 2 \<and> endinterp_allowed scenario_P \<and>
   fst (get_unitval linear_fit scenario_P 1990) = Inr (unitval 0 ''ppmv'') \<and>
   fst (get_unitval linear_fit (set_ts 2000 (unitval 5 ''PgC'') scenario_P) 1990)
     = Inr (unitval 0 ''PgC'')"
  by (simp add: scen_defs eval_defs)

text \<open>
  In a dirty series the next \<open>get\<close> that reaches the helper, with more than one sample
  stored, fits the interpolator to all samples, the new one among them.
\<close>

lemma late_sample_in_refit_double:
  assumes "lastInterpYear S \<le> t" and "t' \<noteq> t" and "dirty S" and "\<not> exists_ts S t'"
    and "t' < lastInterpYear S" and "1 < length (mapdata (set_ts t v S))"
  shows "fitted (interpolator (snd (get_double F (set_ts t v S) t'))) = mapdata (set_ts t v S)"
proof -
  let ?S' = "S\<lparr>mapdata := map_assign t v (mapdata S)\<rparr>"
  have s: "set_ts t v S = ?S'" using assms(1) by (rule set_ts_late)
  have m': "map_find t' (mapdata ?S') = None"
    using assms(2,4) by (simp add: map_find_assign exists_ts_def)
  have l': "t' < lastInterpYear ?S'" using assms(5) by simp
  show ?thesis
    using assms(3,6) unfolding s get_double_miss [OF m' l'] by simp
qed

lemma late_sample_in_refit_unitval:
  assumes "lastInterpYear Q \<le> t" and "t' \<noteq> t" and "dirty Q" and "\<not> exists_ts Q t'"
    and "t' < lastInterpYear Q" and "1 < length (mapdata (set_ts t q Q))"
  shows "fitted (interpolator (snd (get_unitval F (set_ts t q Q) t')))
           = map (\<lambda>e. (fst e, val (snd e))) (mapdata (set_ts t q Q))"
proof -
  let ?Q' = "Q\<lparr>mapdata := map_assign t q (mapdata Q)\<rparr>"
  have s: "set_ts t q Q = ?Q'" using assms(1) by (rule set_ts_late)
  have m': "map_find t' (mapdata ?Q') = None"
    using assms(2,4) by (simp add: map_find_assign exists_ts_def)
  have l': "t' < lastInterpYear ?Q'" using assms(5) by simp
  show ?thesis
    using assms(3,6) unfolding s get_unitval_miss [OF m' l'] by simp
qed

text \<open>
  Claim C2, amended. Let \<open>S\<close> be a series of plain numbers or a series of quantities, and
  let \<open>set(t, v)\<close> be called with \<open>t\<close> not before the cutoff. The call changes the sample
  map and nothing else: cutoff, extrapolation flag, dirty flag and interpolator stay, so
  it neither marks the series dirty nor refits. For another time \<open>t'\<close>, \<open>get(t')\<close> gives
  the same result after the \<open>set\<close> as before it, and leaves the state that the \<open>set\<close>
  makes of the state the earlier \<open>get\<close> left, when \<open>t'\<close> is stored, or \<open>t'\<close> is not before
  the cutoff, or the series is empty, or the series is not dirty, has at least two
  samples, either allows extrapolation or has \<open>t' \<le> last()\<close>, and, for quantities, keeps
  the unit of its first sample (\<open>first() < t\<close>, or \<open>v\<close> has the unit of the first sample).
  The new sample does take part in interpolation: in a dirty series, a \<open>get(t')\<close> that
  reaches the helper with more than one sample stored fits the interpolator to samples
  that include it.

  The first conjunct is about series of numbers (\<open>S\<close>, \<open>t\<close>, \<open>t'\<close>, \<open>v\<close>), the second about
  series of quantities (\<open>Q\<close>, \<open>u\<close>, \<open>u'\<close>, \<open>q\<close>).
\<close>

theorem C2_set_after_cutoff_frame:
  fixes S :: "real tseries" and Q :: "'u unitval tseries"
  shows
  "(lastInterpYear S \<le> t \<and> t' \<noteq> t \<longrightarrow>
      set_ts t v S = S\<lparr>mapdata := map_assign t v (mapdata S)\<rparr> \<and>
      (exists_ts S t' \<or> lastInterpYear S \<le> t' \<or> mapdata S = [] \<or>
       (\<not> dirty S \<and> 1 < length (mapdata S) \<and>
        (endinterp_allowed S \<or> last_ts S = Inr b \<and> t' \<le> b))
       \<longrightarrow> get_double F (set_ts t v S) t' =
             (fst (get_double F S t'), set_ts t v (snd (get_double F S t')))) \<and>
      (dirty S \<and> \<not> exists_ts S t' \<and> t' < lastInterpYear S \<and>
       1 < length (mapdata (set_ts t v S))
       \<longrightarrow> (t, v) \<in> set (fitted (interpolator (snd (get_double F (set_ts t v S) t'))))))
   \<and>
   (lastInterpYear Q \<le> u \<and> u' \<noteq> u \<longrightarrow>
      set_ts u q Q = Q\<lparr>mapdata := map_assign u q (mapdata Q)\<rparr> \<and>
      (exists_ts Q u' \<or> lastInterpYear Q \<le> u' \<or> mapdata Q = [] \<or>
       (\<not> dirty Q \<and> 1 < length (mapdata Q) \<and>
        (endinterp_allowed Q \<or> last_ts Q = Inr d \<and> u' \<le> d) \<and>
        (first_ts Q = Inr a \<and> a < u \<or> units q = units (snd (hd (mapdata Q)))))
       \<longrightarrow> get_unitval G (set_ts u q Q) u' =
             (fst (get_unitval G Q u'), set_ts u q (snd (get_unitval G Q u')))) \<and>
      (dirty Q \<and> \<not> exists_ts Q u' \<and> u' < lastInterpYear Q \<and>
       1 < length (mapdata (set_ts u q Q))
       \<longrightarrow> (u, val q)
             \<in> set (fitted (interpolator (snd (get_unitval G (set_ts u q Q) u'))))))"
proof -
  have refit_S: "(t, v) \<in> set (fitted (interpolator (snd (get_double F (set_ts t v S) t'))))"
    if "lastInterpYear S \<le> t" "t' \<noteq> t" "dirty S" "\<not> exists_ts S t'"
       "t' < lastInterpYear S" "1 < length (mapdata (set_ts t v S))"
    unfolding late_sample_in_refit_double [OF that]
    by (simp add: mapdata_set_ts mem_map_assign)
  have "(u, val q) \<in> (\<lambda>e. (fst e, val (snd e))) ` set (map_assign u q (mapdata Q))"
    using mem_map_assign [of u q "mapdata Q"] by force
  then have refit_Q:
    "(u, val q) \<in> set (fitted (interpolator (snd (get_unitval G (set_ts u q Q) u'))))"
    if "lastInterpYear Q \<le> u" "u' \<noteq> u" "dirty Q" "\<not> exists_ts Q u'"
       "u' < lastInterpYear Q" "1 < length (mapdata (set_ts u q Q))"
    unfolding late_sample_in_refit_unitval [OF that]
    by (simp add: mapdata_set_ts)
  show ?thesis
    using set_ts_late [of S t v] set_ts_late [of Q u q]
      set_late_frame_double [where S = S and t = t and t' = t' and b = b and v = v and F = F]
      set_late_frame_unitval [where Q = Q and t = u and t' = u' and b = d and a = a
        and q = q and F = G]
      refit_S refit_Q
    by blast
qed

theorem C2_witness:
  "lastInterpYear scenario_A_fitted \<le> 2015 \<and> \<not> dirty scenario_A_fitted \<and>
   \<not> exists_ts scenario_A_fitted 2005 \<and>
   get_double linear_fit (set_ts 2015 7 scenario_A_fitted) 2005
     = (Inr (35 / 2), set_ts 2015 7 scenario_A_fitted) \<and>
   dirty scenario_A \<and>
   (2015, 7) \<in> set (fitted (interpolator (snd (get_double linear_fit
                                                  (set_ts 2015 7 scenario_A) 2005)))) \<and>
   lastInterpYear scenario_P \<le> 2020 \<and> \<not> dirty scenario_P \<and>
   \<not> exists_ts scenario_P 1990 \<and>
   fst (get_unitval linear_fit (set_ts 2020 (unitval 3 ''ppmv'') scenario_P) 1990)
     = Inr (unitval 0 ''ppmv'') \<and>
   dirty scenario_P_dirty \<and>
   (2020, 3) \<in> set (fitted (interpolator (snd (get_unitval linear_fit
                         (set_ts 2020 (unitval 3 ''ppmv'') scenario_P_dirty) 1990))))"
proof -
  have a: "lastInterpYear scenario_A_fitted \<le> 2015 \<and> (2005::real) \<noteq> 2015"
    by (simp add: scen_defs eval_defs)
  have d: "\<not> dirty scenario_A_fitted" by (simp add: scen_defs eval_defs)
  have e: "\<not> exists_ts scenario_A_fitted 2005" by (simp add: scen_defs eval_defs)
  have c: "exists_ts scenario_A_fitted 2005 \<or> lastInterpYear scenario_A_fitted \<le> 2005 \<or>
           mapdata scenario_A_fitted = [] \<or>
           (\<not> dirty scenario_A_fitted \<and> 1 < length (mapdata scenario_A_fitted) \<and>
            (endinterp_allowed scenario_A_fitted \<or>
             last_ts scenario_A_fitted = Inr 2010 \<and> (2005::real) \<le> 2010))"
    by (simp add: scen_defs eval_defs)
  have g: "get_double linear_fit scenario_A_fitted 2005 = (Inr (35 / 2), scenario_A_fitted)"
    by (simp add: scen_defs eval_defs)
  have "get_double linear_fit (set_ts 2015 7 scenario_A_fitted) 2005 =
          (fst (get_double linear_fit scenario_A_fitted 2005),
           set_ts 2015 7 (snd (get_double linear_fit scenario_A_fitted 2005)))"
    using C2_set_after_cutoff_frame [where S = scenario_A_fitted and t = 2015 and t' = 2005
        and v = 7 and b = 2010 and F = linear_fit] a c
    by blast
  then have r1: "get_double linear_fit (set_ts 2015 7 scenario_A_fitted) 2005
               = (Inr (35 / 2), set_ts 2015 7 scenario_A_fitted)"
    by (simp only: g fst_conv snd_conv)
  have a2: "lastInterpYear scenario_A \<le> 2015 \<and> (2005::real) \<noteq> 2015"
    by (simp add: scen_defs eval_defs)
  have d2: "dirty scenario_A" by (simp add: scen_defs eval_defs)
  have c2: "dirty scenario_A \<and> \<not> exists_ts scenario_A 2005 \<and>
            2005 < lastInterpYear scenario_A \<and>
            1 < length (mapdata (set_ts 2015 7 scenario_A))"
    by (simp add: scen_defs eval_defs)
  have r2: "(2015, 7) \<in> set (fitted (interpolator (snd (get_double linear_fit
                                                  (set_ts 2015 7 scenario_A) 2005))))"
    using C2_set_after_cutoff_frame [where S = scenario_A and t = 2015 and t' = 2005
        and v = 7 and F = linear_fit] a2 c2
    by blast
  have a3: "lastInterpYear scenario_P \<le> 2020 \<and> (1990::real) \<noteq> 2020"
    by (simp add: scen_defs eval_defs)
  have d3: "\<not> dirty scenario_P" by (simp add: scen_defs eval_defs)
  have e3: "\<not> exists_ts scenario_P 1990" by (simp add: scen_defs eval_defs)
  have c3: "exists_ts scenario_P 1990 \<or> lastInterpYear scenario_P \<le> 1990 \<or>
            mapdata scenario_P = [] \<or>
            (\<not> dirty scenario_P \<and> 1 < length (mapdata scenario_P) \<and>
             (endinterp_allowed scenario_P \<or>
              last_ts scenario_P = Inr 2010 \<and> (1990::real) \<le> 2010) \<and>
             (first_ts scenario_P = Inr 2000 \<and> (2000::real) < 2020 \<or>
              units (unitval 3 ''ppmv'') = units (snd (hd (mapdata scenario_P)))))"
    by (simp add: scen_defs eval_defs)
  have g3: "fst (get_unitval linear_fit scenario_P 1990) = Inr (unitval 0 ''ppmv'')"
    by (simp add: scen_defs eval_defs)
  have "get_unitval linear_fit (set_ts 2020 (unitval 3 ''ppmv'') scenario_P) 1990 =
          (fst (get_unitval linear_fit scenario_P 1990),
           set_ts 2020 (unitval 3 ''ppmv'') (snd (get_unitval linear_fit scenario_P 1990)))"
    using C2_set_after_cutoff_frame [where Q = scenario_P and u = 2020 and u' = 1990
        and q = "unitval 3 ''ppmv''" and d = 2010 and a = 2000 and G = linear_fit] a3 c3
    by blast
  then have r3:
    "fst (get_unitval linear_fit (set_ts 2020 (unitval 3 ''ppmv'') scenario_P) 1990)
       = Inr (unitval 0 ''ppmv'')"
    by (simp only: g3 fst_conv)
  have a4: "lastInterpYear scenario_P_dirty \<le> 2020 \<and> (1990::real) \<noteq> 2020"
    by (simp add: scen_defs eval_defs)
  have d4: "dirty scenario_P_dirty" by (simp add: scen_defs eval_defs)
  have c4: "dirty scenario_P_dirty \<and> \<not> exists_ts scenario_P_dirty 1990 \<and>
            1990 < lastInterpYear scenario_P_dirty \<and>
            1 < length (mapdata (set_ts 2020 (unitval 3 ''ppmv'') scenario_P_dirty))"
    by (simp add: scen_defs eval_defs)
  have "(2020, val (unitval 3 ''ppmv''))
          \<in> set (fitted (interpolator (snd (get_unitval linear_fit
                    (set_ts 2020 (unitval 3 ''ppmv'') scenario_P_dirty) 1990))))"
    using C2_set_after_cutoff_frame [where Q = scenario_P_dirty and u = 2020 and u' = 1990
        and q = "unitval 3 ''ppmv''" and G = linear_fit] a4 c4
    by blast
  then have r4: "(2020, 3) \<in> set (fitted (interpolator (snd (get_unitval linear_fit
                         (set_ts 2020 (unitval 3 ''ppmv'') scenario_P_dirty) 1990))))"
    by (simp only: unitval_def unitval.simps)
  from a d e r1 d2 r2 a3 d3 e3 r3 d4 r4 show ?thesis by blast
qed

subsection \<open>The default policy\<close>

text \<open>
  Claim C3. The constructor sets the cutoff to \<open>std::numeric_limits<double>::min()\<close>,
  which is positive, so a time at or below zero is before the cutoff of a new series and
  a miss there goes to the interpolator. With samples at -2 and -1 and the policy never
  changed, \<open>get(-1.5)\<close> returns the fitted value; on the new, empty series \<open>get(0)\<close> fails
  for want of samples. Neither fails as "interpolation not permitted".
\<close>

theorem C3_default_cutoff_reaches_interp:
  "fst (get_double F (set_ts (-1) 3 (set_ts (-2) 1 tseries_new)) (- 3 / 2))
     = Inr (F DEFAULT [(-2, 1), (-1, 3)] (- 3 / 2)) \<and>
   get_double F tseries_new 0 = (Inl InsufficientSamples, tseries_new)"
  by (simp add: eval_defs)

text \<open>
  From the smallest positive normalised double on, the default policy does refuse every
  miss, whatever samples have been set.
\<close>

lemma default_policy_refuses:
  "DBL_MIN \<le> t \<Longrightarrow> \<not> exists_ts (set_all ps tseries_new) t \<Longrightarrow>
   get h (set_all ps tseries_new) t = (Inl InterpolationNotPermitted, set_all ps tseries_new)"
  by (rule get_refused)
     (simp_all add: exists_ts_def lastInterpYear_set_all tseries_new_def set_interp_def)

subsection \<open>Extrapolation\<close>

text \<open>
  Claim C4. In a series with at least two samples, a \<open>get\<close> at a time \<open>t\<close> that is
  not stored, is before the cutoff and is outside the interval from \<open>first()\<close> to
  \<open>last()\<close> returns the interpolator's value at \<open>t\<close> if extrapolation is allowed, and
  fails as "end interpolation not allowed" if it is not.
\<close>

theorem C4_extrapolation_iff_allowed:
  assumes "1 < length (mapdata S)" and "\<not> exists_ts S t" and "t < lastInterpYear S"
    and "\<not> in_range S t"
  shows "fst (get_double F S t) =
           (if endinterp_allowed S
            then Inr (interp_f F (interpolator (snd (get_double F S t))) t)
            else Inl ExtrapolationNotPermitted)"
proof -
  from assms(1) have ne: "mapdata S \<noteq> []" by auto
  from assms(4) ne have out: "t < fst (hd (mapdata S)) \<or> fst (last (mapdata S)) < t"
    by (auto simp: in_range_def first_ts_def last_ts_def)
  from assms(2) have miss: "map_find t (mapdata S) = None" by (simp add: exists_ts_def)
  show ?thesis
    using assms(1) out by (simp add: get_double_miss [OF miss assms(3)] interp_f_def)
qed

theorem C4_witness:
  "1 < length (mapdata scenario_A) \<and> \<not> exists_ts scenario_A 1980 \<and>
   1980 < lastInterpYear scenario_A \<and> \<not> in_range scenario_A 1980 \<and>
   \<not> endinterp_allowed scenario_A \<and>
   fst (get_double linear_fit scenario_A 1980) = Inl ExtrapolationNotPermitted"
proof -
  have a: "1 < length (mapdata scenario_A)" by (simp add: scen_defs eval_defs)
  have b: "\<not> exists_ts scenario_A 1980" by (simp add: scen_defs eval_defs)
  have c: "1980 < lastInterpYear scenario_A" by (simp add: scen_defs eval_defs)
  have d: "\<not> in_range scenario_A 1980" by (simp add: scen_defs eval_defs)
  have e: "\<not> endinterp_allowed scenario_A" by (simp add: scen_defs eval_defs)
  from C4_extrapolation_iff_allowed [OF a b c d, of linear_fit] a b c d e
  show ?thesis by simp
qed

subsection \<open>Scenario A at 2020\<close>

text \<open>
  Claim C5, as stated, fails: on the series of scenario A, \<open>get(2020)\<close> does not fail as
  "end interpolation not allowed".
\<close>

theorem C5_counterexample:
  "mapdata scenario_A = [(1990, 10), (2000, 20), (2010, 15)] \<and>
   lastInterpYear scenario_A = 2010 \<and> \<not> endinterp_allowed scenario_A \<and>
   fst (get_double linear_fit scenario_A 2020) \<noteq> Inl ExtrapolationNotPermitted"
  by (simp add: scen_defs eval_defs)

text \<open>
  Claim C5, amended. For a series holding exactly the samples (1990, 10), (2000, 20) and
  (2010, 15), with the cutoff at 2010 and extrapolation not allowed, \<open>get(2020)\<close> fails
  as "interpolation requested but not allowed" and leaves the series as it was: 2020
  is not before the cutoff, and \<open>get\<close> tests the cutoff before the helper can test the
  range. This holds for every element helper, dirty flag and interpolator state.
\<close>

theorem C5_scenario_A_refused_by_cutoff:
  "mapdata S = [(1990, 10), (2000, 20), (2010, 15)] \<Longrightarrow> lastInterpYear S = 2010 \<Longrightarrow>
   \<not> endinterp_allowed S \<Longrightarrow> get h S 2020 = (Inl InterpolationNotPermitted, S)"
  by (simp add: get_def)

theorem C5_witness:
  "mapdata scenario_A = [(1990, 10), (2000, 20), (2010, 15)] \<and>
   lastInterpYear scenario_A = 2010 \<and> \<not> endinterp_allowed scenario_A \<and>
   get_double linear_fit scenario_A 2020 = (Inl InterpolationNotPermitted, scenario_A)"
proof -
  have a: "mapdata scenario_A = [(1990, 10), (2000, 20), (2010, 15)]"
    by (simp add: scen_defs eval_defs)
  have b: "lastInterpYear scenario_A = 2010" by (simp add: scen_defs eval_defs)
  have c: "\<not> endinterp_allowed scenario_A" by (simp add: scen_defs eval_defs)
  from C5_scenario_A_refused_by_cutoff [OF a b c] a b c show ?thesis by simp
qed

subsection \<open>Asking twice\<close>

text \<open>
  Claim C6. If a \<open>get\<close> at a time that is not stored succeeds, then the series it leaves
  is not dirty, and a second \<open>get\<close> at the same time on that series returns the same
  value and leaves the series exactly as it found it: no refit, dirty flag still false.
\<close>

theorem C6_get_twice:
  assumes "\<not> exists_ts S t" and "get_double F S t = (Inr v, S')"
  shows "get_double F S' t = (Inr v, S') \<and> \<not> dirty S'"
proof -
  from assms(1) have miss: "map_find t (mapdata S) = None" by (simp add: exists_ts_def)
  have lt: "t < lastInterpYear S"
    using assms(2) miss by (auto simp: get_def split: if_splits)
  from assms(2) have S': "S' = snd (get_double F S t)" by simp
  have miss': "map_find t (mapdata S') = None" using miss by (simp add: S' mapdata_get)
  have lt': "t < lastInterpYear S'" using lt by (simp add: S' policy_get)
  from assms(2) show ?thesis
    unfolding get_double_miss [OF miss' lt'] unfolding get_double_miss [OF miss lt]
    by (auto split: if_splits)
qed

theorem C6_witness:
  "\<not> exists_ts scenario_A 1995 \<and>
   get_double linear_fit scenario_A 1995 = (Inr 15, scenario_A_fitted) \<and>
   get_double linear_fit scenario_A_fitted 1995 = (Inr 15, scenario_A_fitted) \<and>
   \<not> dirty scenario_A_fitted"
proof -
  have a: "\<not> exists_ts scenario_A 1995" by (simp add: scen_defs eval_defs)
  have b: "get_double linear_fit scenario_A 1995 = (Inr 15, scenario_A_fitted)"
    by (simp add: scen_defs eval_defs)
  from C6_get_twice [OF a b] a b show ?thesis by simp
qed

subsection \<open>The snapshot of \<open>allowPartialInterp\<close>\<close>

text \<open>
  Claim C7. On a series with samples, \<open>allowPartialInterp(e)\<close> sets the cutoff to the
  value \<open>l\<close> that \<open>last()\<close> has at the call, sets the extrapolation flag to \<open>e\<close> and marks
  the series dirty. Whatever \<open>set\<close> calls follow, the cutoff is still \<open>l\<close>, and a \<open>get\<close>
  at a time that is not stored is refused as "interpolation requested but not allowed"
  exactly when the time is not before \<open>l\<close>.
\<close>

theorem C7_allowPartialInterp_snapshot:
  assumes "last_ts S = Inr l"
  shows "allowPartialInterp e S = (Inr (), set_interp l e DEFAULT S) \<and>
         lastInterpYear (set_interp l e DEFAULT S) = l \<and>
         endinterp_allowed (set_interp l e DEFAULT S) = e \<and>
         dirty (set_interp l e DEFAULT S) \<and>
         lastInterpYear (set_all ps (set_interp l e DEFAULT S)) = l \<and>
         (\<not> exists_ts (set_all ps (set_interp l e DEFAULT S)) t \<longrightarrow>
            (fst (get_double F (set_all ps (set_interp l e DEFAULT S)) t)
               = Inl InterpolationNotPermitted) = (l \<le> t))"
proof -
  let ?S' = "set_interp l e DEFAULT S"
  have c: "lastInterpYear (set_all ps ?S') = l"
    by (simp add: lastInterpYear_set_all set_interp_def)
  have "fst (get_double F (set_all ps ?S') t) = Inl InterpolationNotPermitted \<longleftrightarrow> l \<le> t"
    if "\<not> exists_ts (set_all ps ?S') t"
  proof (cases "l \<le> t")
    case True
    with that c show ?thesis by (simp add: exists_ts_def get_refused)
  next
    case False
    have "fst (get_double F (set_all ps ?S') t) \<noteq> Inl InterpolationNotPermitted"
      using that c False interp_never_refused [of F "mapdata (set_all ps ?S')"
          "interpolator (set_all ps ?S')" "name (set_all ps ?S')" "dirty (set_all ps ?S')"
          "endinterp_allowed (set_all ps ?S')" t]
      by (auto simp: exists_ts_def get_def split: prod.splits)
    with False show ?thesis by simp
  qed
  with c assms show ?thesis
    by (simp add: allowPartialInterp_def set_interp_def)
qed

theorem C7_witness:
  "last_ts three_samples = Inr 2010 \<and>
   lastInterpYear (set_all [(2020, 1)] (set_interp 2010 False DEFAULT three_samples)) = 2010 \<and>
   \<not> exists_ts (set_all [(2020, 1)] (set_interp 2010 False DEFAULT three_samples)) 2015 \<and>
   fst (get_double linear_fit
          (set_all [(2020, 1)] (set_interp 2010 False DEFAULT three_samples)) 2015)
     = Inl InterpolationNotPermitted"
proof -
  have a: "last_ts three_samples = Inr 2010" by (simp add: scen_defs eval_defs)
  have b: "\<not> exists_ts (set_all [(2020, 1)] (set_interp 2010 False DEFAULT three_samples)) 2015"
    by (simp add: scen_defs eval_defs)
  from C7_allowPartialInterp_snapshot [OF a, of False "[(2020, 1)]" 2015 linear_fit] a b
  show ?thesis by simp
qed

text \<open>On a series without samples the call throws and changes nothing.\<close>

lemma allowPartialInterp_empty:
  "mapdata S = [] \<Longrightarrow> allowPartialInterp e S = (Inl EmptySeries, S)"
  by (simp add: allowPartialInterp_def last_ts_def)

subsection \<open>Too few samples\<close>

text \<open>
  Claim C8. In a series with exactly one sample, a \<open>get\<close> at a time that is not stored
  and is before the cutoff, so that it is handed to the interpolation helper, fails as
  "time series data must have size>1" and leaves the series as it was. In a series with
  no sample, \<open>first()\<close> and \<open>last()\<close> each fail as "no mapdata".
\<close>

theorem C8_boundary_failures:
  "(length (mapdata S) = 1 \<and> \<not> exists_ts S t \<and> t < lastInterpYear S \<longrightarrow>
      get_double F S t = (Inl InsufficientSamples, S)) \<and>
   (mapdata E = [] \<longrightarrow> first_ts E = Inl EmptySeries \<and> last_ts E = Inl EmptySeries)"
  by (simp add: exists_ts_def get_double_miss first_ts_def last_ts_def)

theorem C8_witness:
  "length (mapdata one_sample) = 1 \<and> \<not> exists_ts one_sample 1990 \<and>
   1990 < lastInterpYear one_sample \<and>
   get_double linear_fit one_sample 1990 = (Inl InsufficientSamples, one_sample) \<and>
   mapdata (tseries_new :: real tseries) = [] \<and>
   first_ts (tseries_new :: real tseries) = Inl EmptySeries \<and>
   last_ts (tseries_new :: real tseries) = Inl EmptySeries"
proof -
  have a: "length (mapdata one_sample) = 1 \<and> \<not> exists_ts one_sample 1990 \<and>
           1990 < lastInterpYear one_sample"
    by (simp add: scen_defs eval_defs)
  have b: "mapdata (tseries_new :: real tseries) = []" by (simp add: eval_defs)
  from C8_boundary_failures [of one_sample 1990 linear_fit "tseries_new :: real tseries"] a b
  show ?thesis by simp
qed

subsection \<open>Quantities keep the unit of the first sample\<close>

text \<open>
  Claim C9. In a series of quantities, if a \<open>get\<close> at a time that is not stored returns
  a quantity \<open>q\<close>, then the series has at least two samples, \<open>q\<close> has the unit of the
  sample at the head of the map, which is the sample at \<open>first()\<close>, the earliest time of
  the series, and the magnitude of \<open>q\<close> is the interpolator's value at that time.
\<close>

theorem C9_unit_of_first_sample:
  assumes "sorted_keys Q" and "\<not> exists_ts Q t" and "get_unitval F Q t = (Inr q, Q')"
  shows "1 < length (mapdata Q) \<and>
         first_ts Q = Inr (fst (hd (mapdata Q))) \<and>
         (\<forall>e \<in> set (mapdata Q). fst (hd (mapdata Q)) \<le> fst e) \<and>
         units q = units (snd (hd (mapdata Q))) \<and>
         value_uv q (units q) = interp_f F (interpolator Q') t"
proof -
  from assms(2) have miss: "map_find t (mapdata Q) = None" by (simp add: exists_ts_def)
  from assms(3) miss have r:
    "interp_helper_unitval_interp F (mapdata Q) (interpolator Q) (name Q) (dirty Q)
       (endinterp_allowed Q) t = (Inr q, interpolator Q', dirty Q')"
    by (auto simp: get_def split: if_splits prod.splits)
  then have len: "1 < length (mapdata Q)"
    by (auto simp: interp_helper_unitval_interp_def split: if_splits)
  from r len have q: "q = unitval (interp_f F (interpolator Q') t) (units (snd (hd (mapdata Q))))"
    by (auto simp: interp_helper_unitval_interp_def Let_def split: if_splits)
  from len have ne: "mapdata Q \<noteq> []" by auto
  have least: "\<forall>e \<in> set (mapdata Q). fst (hd (mapdata Q)) \<le> fst e"
    using assms(1) by (auto simp: sorted_keys_def hd_least)
  from len ne least show ?thesis
    by (simp add: q first_ts_def unitval_def units_def value_uv_def)
qed

theorem C9_witness:
  "sorted_keys scenario_Q \<and> \<not> exists_ts scenario_Q 1995 \<and>
   fst (get_unitval linear_fit scenario_Q 1995) = Inr (unitval 15 ''ppmv'') \<and>
   units (snd (hd (mapdata scenario_Q))) = ''ppmv''"
proof -
  have a: "sorted_keys scenario_Q" by (simp add: scen_defs eval_defs)
  have b: "\<not> exists_ts scenario_Q 1995" by (simp add: scen_defs eval_defs)
  have r: "fst (get_unitval linear_fit scenario_Q 1995) = Inr (unitval 15 ''ppmv'')"
    by (simp add: scen_defs eval_defs)
  then have c: "get_unitval linear_fit scenario_Q 1995
             = (Inr (unitval 15 ''ppmv''), snd (get_unitval linear_fit scenario_Q 1995))"
    by (simp add: prod_eq_iff)
  have "units (unitval 15 ''ppmv'') = units (snd (hd (mapdata scenario_Q)))"
    using C9_unit_of_first_sample [OF a b c] by blast
  then have "units (snd (hd (mapdata scenario_Q))) = ''ppmv''"
    by (simp add: unitval_def units_def)
  with a b r show ?thesis by blast
qed

subsection \<open>A refused extrapolation after the refit\<close>

text \<open>
  Claim C10. Let the series be dirty, with at least two samples and extrapolation not
  allowed, and let \<open>t\<close> be a time that is not stored, before the cutoff and outside the
  interval from \<open>first()\<close> to \<open>last()\<close>. Then \<open>get(t)\<close> fails as "end interpolation not
  allowed", and the series it leaves is not the one it found: the interpolator has been
  given the current samples and the dirty flag is false.
\<close>

theorem C10_failed_get_refits:
  assumes "1 < length (mapdata S)" and "\<not> exists_ts S t" and "t < lastInterpYear S"
    and "\<not> in_range S t" and "\<not> endinterp_allowed S" and "dirty S"
  shows "get_double F S t =
           (Inl ExtrapolationNotPermitted,
            S\<lparr>interpolator :=
                 newdata (length (mapdata S)) (map fst (mapdata S)) (map snd (mapdata S))
                   (interpolator S),
              dirty := False\<rparr>) \<and>
         fitted (interpolator (snd (get_double F S t))) = mapdata S \<and>
         \<not> dirty (snd (get_double F S t)) \<and>
         snd (get_double F S t) \<noteq> S"
proof -
  from assms(1) have ne: "mapdata S \<noteq> []" by auto
  from assms(4) ne have out: "t < fst (hd (mapdata S)) \<or> fst (last (mapdata S)) < t"
    by (auto simp: in_range_def first_ts_def last_ts_def)
  from assms(2) have miss: "map_find t (mapdata S) = None" by (simp add: exists_ts_def)
  have g: "get_double F S t =
           (Inl ExtrapolationNotPermitted,
            S\<lparr>interpolator :=
                 newdata (length (mapdata S)) (map fst (mapdata S)) (map snd (mapdata S))
                   (interpolator S),
              dirty := False\<rparr>)"
    using assms(1,3,5,6) out miss
    by (simp add: get_def interp_helper_interp_def Let_def)
  have "dirty (snd (get_double F S t)) \<noteq> dirty S" using assms(6) by (simp add: g)
  then have "snd (get_double F S t) \<noteq> S" by auto
  then show ?thesis using assms(6) by (simp add: g newdata_def zip_map_fst_snd)
qed

theorem C10_witness:
  "1 < length (mapdata scenario_A) \<and> \<not> exists_ts scenario_A 1980 \<and>
   1980 < lastInterpYear scenario_A \<and> \<not> in_range scenario_A 1980 \<and>
   \<not> endinterp_allowed scenario_A \<and> dirty scenario_A \<and>
   fst (get_double linear_fit scenario_A 1980) = Inl ExtrapolationNotPermitted \<and>
   \<not> dirty (snd (get_double linear_fit scenario_A 1980)) \<and>
   snd (get_double linear_fit scenario_A 1980) \<noteq> scenario_A"
proof -
  have a: "1 < length (mapdata scenario_A)" by (simp add: scen_defs eval_defs)
  have b: "\<not> exists_ts scenario_A 1980" by (simp add: scen_defs eval_defs)
  have c: "1980 < lastInterpYear scenario_A" by (simp add: scen_defs eval_defs)
  have d: "\<not> in_range scenario_A 1980" by (simp add: scen_defs eval_defs)
  have e: "\<not> endinterp_allowed scenario_A" by (simp add: scen_defs eval_defs)
  have f: "dirty scenario_A" by (simp add: scen_defs eval_defs)
  note th = C10_failed_get_refits [OF a b c d e f, of linear_fit]
  from th have g: "fst (get_double linear_fit scenario_A 1980) = Inl ExtrapolationNotPermitted"
    by simp
  from th have h: "\<not> dirty (snd (get_double linear_fit scenario_A 1980))" by blast
  from th have i: "snd (get_double linear_fit scenario_A 1980) \<noteq> scenario_A" by blast
  from a b c d e f g h i show ?thesis by blast
qed

subsection \<open>The same paths in the specialisation for quantities\<close>

text \<open>
  \<open>interp_helper<unitval>::interp\<close> repeats the primary template line by line; it differs
  in the magnitudes it hands to the interpolator and in the quantity it returns. The
  results on extrapolation, on asking twice, on a single sample and on the refit before a
  refused extrapolation carry over.
\<close>

lemma unitval_extrapolation_iff_allowed:
  assumes "1 < length (mapdata Q)" and "\<not> exists_ts Q t" and "t < lastInterpYear Q"
    and "\<not> in_range Q t"
  shows "fst (get_unitval F Q t) =
           (if endinterp_allowed Q
            then Inr (unitval (interp_f F (interpolator (snd (get_unitval F Q t))) t)
                        (units (snd (hd (mapdata Q)))))
            else Inl ExtrapolationNotPermitted)"
proof -
  from assms(1) have ne: "mapdata Q \<noteq> []" by auto
  from assms(4) ne have out: "t < fst (hd (mapdata Q)) \<or> fst (last (mapdata Q)) < t"
    by (auto simp: in_range_def first_ts_def last_ts_def)
  from assms(2) have miss: "map_find t (mapdata Q) = None" by (simp add: exists_ts_def)
  show ?thesis
    using assms(1) out
    by (simp add: get_unitval_miss [OF miss assms(3)] interp_f_def unitval_def units_def)
qed

lemma unitval_get_twice:
  assumes "\<not> exists_ts Q t" and "get_unitval F Q t = (Inr q, Q')"
  shows "get_unitval F Q' t = (Inr q, Q') \<and> \<not> dirty Q'"
proof -
  from assms(1) have miss: "map_find t (mapdata Q) = None" by (simp add: exists_ts_def)
  have lt: "t < lastInterpYear Q"
    using assms(2) miss by (auto simp: get_def split: if_splits)
  from assms(2) have Q': "Q' = snd (get_unitval F Q t)" by simp
  have miss': "map_find t (mapdata Q') = None" using miss by (simp add: Q' mapdata_get)
  have lt': "t < lastInterpYear Q'" using lt by (simp add: Q' policy_get)
  from assms(2) show ?thesis
    unfolding get_unitval_miss [OF miss' lt'] unfolding get_unitval_miss [OF miss lt]
    by (auto split: if_splits)
qed

lemma unitval_one_sample:
  "length (mapdata Q) = 1 \<Longrightarrow> \<not> exists_ts Q t \<Longrightarrow> t < lastInterpYear Q \<Longrightarrow>
   get_unitval F Q t = (Inl InsufficientSamples, Q)"
  by (simp add: exists_ts_def get_unitval_miss)

lemma unitval_failed_get_refits:
  assumes "1 < length (mapdata Q)" and "\<not> exists_ts Q t" and "t < lastInterpYear Q"
    and "\<not> in_range Q t" and "\<not> endinterp_allowed Q" and "dirty Q"
  shows "fst (get_unitval F Q t) = Inl ExtrapolationNotPermitted \<and>
         fitted (interpolator (snd (get_unitval F Q t)))
           = map (\<lambda>e. (fst e, val (snd e))) (mapdata Q) \<and>
         \<not> dirty (snd (get_unitval F Q t))"
proof -
  from assms(1) have ne: "mapdata Q \<noteq> []" by auto
  from assms(4) ne have out: "t < fst (hd (mapdata Q)) \<or> fst (last (mapdata Q)) < t"
    by (auto simp: in_range_def first_ts_def last_ts_def)
  from assms(2) have miss: "map_find t (mapdata Q) = None" by (simp add: exists_ts_def)
  show ?thesis
    using assms(1,5,6) out by (simp add: get_unitval_miss [OF miss assms(3)])
qed

end
